theory Spec2Isabelle
  imports Main "HOL-Library.Multiset"
begin

section \<open>The page-object base class \<open>BaseObject\<close>\<close>

text \<open>
  A shallow embedding of \<open>BaseObject\<close> (the page-object base class): the selector
  table and the load-selector list, the blocking poll loop \<open>waitUntil\<close> with
  \<open>waitForElements\<close> on top of it, \<open>getFrame\<close>, and the screenshot pipeline of
  \<open>capture\<close>.

  The driver adapter, the wall clock, the image codec and the file-name utility are
  supplied from outside the class. They are parameters of the model: the adapter is a
  record of state transformers over a world that carries the clock.
\<close>

subsection \<open>Values, errors and the world\<close>

text \<open>
  The world is whatever the browser, the page and the clock are at one moment.
  \<open>+new Date()\<close> reads its field \<open>clock\<close> (milliseconds); everything else is the
  extension part of the record.
\<close>

record world =
  clock :: int

text \<open>
  What a predicate handed to \<open>waitUntil\<close> returns, as far as the code looks at it:
  a value without a truthy \<open>then\<close> property, of the given truthiness, or a thenable
  (an object, hence truthy) together with the truthiness of the value it settles with.
\<close>

datatype predResult = Plain bool | Thenable bool

fun truthy :: "predResult \<Rightarrow> bool" where
  "truthy (Plain b) = b"
| "truthy (Thenable v) = True"

text \<open>\<open>result && result.then\<close>\<close>

fun isThenable :: "predResult \<Rightarrow> bool" where
  "isThenable (Plain b) = False"
| "isThenable (Thenable v) = True"

text \<open>
  \<open>new Error(message)\<close>, and a \<open>TypeError\<close> that the runtime raises: a property
  read on \<open>undefined\<close>, a call of what is no function, a path that is no string.
\<close>

datatype error = Error string | TypeError string

datatype outcome = Returned | Threw error

text \<open>The calls a wait makes, in the order it makes them.\<close>

datatype event = Evaluated predResult | Slept int

text \<open>A rectangle \<open>{x, y, width, height}\<close>: a frame or a black-out area.\<close>

record rect =
  rect_x :: int
  rect_y :: int
  rect_width :: int
  rect_height :: int

text \<open>
  An element handle. \<open>elemFrame\<close> is \<open>None\<close> when the element has no \<open>getFrame\<close>
  method, and otherwise the rectangle that \<open>getFrame()\<close> returns.
\<close>

record element =
  handle :: nat
  elemFrame :: "rect option"

text \<open>
  What a property read on the selector table gives when it gives something: a string, or
  a member that the table inherits from \<open>Object.prototype\<close> (\<open>constructor\<close>,
  \<open>toString\<close>, ...), which is truthy and no string.
\<close>

datatype property = Selector string | Inherited

text \<open>The driver adapter (\<open>BaseObject.getDriverAdapter()\<close>).\<close>

record ('w, 'b) adapter =
  sleep :: "int \<Rightarrow> 'w \<Rightarrow> 'w"
  getElements :: "element \<Rightarrow> property option \<Rightarrow> string \<Rightarrow> 'w \<Rightarrow> element list \<times> 'w"
  getElement :: "element \<Rightarrow> property option \<Rightarrow> string \<Rightarrow> 'w \<Rightarrow> element \<times> 'w"
  takeScreenshot :: "'w \<Rightarrow> 'b \<times> 'w"

text \<open>
  The instance: \<open>_context\<close>, \<open>_loadSelectors\<close>, \<open>_selectors\<close>. The table is
  what a property read on the object finds, its own entries and the inherited members.
\<close>

record baseObject =
  ctxt :: element
  loadSelectors :: "string list"
  selectors :: "string \<rightharpoonup> property"

subsection \<open>Selectors\<close>

definition getContext :: "baseObject \<Rightarrow> element" where
  "getContext this = ctxt this"

text \<open>The members of \<open>Object.prototype\<close>, which every object literal inherits.\<close>

definition prototypeNames :: "string list" where
  "prototypeNames =
     [''constructor'', ''toString'', ''toLocaleString'', ''valueOf'', ''hasOwnProperty'',
      ''isPrototypeOf'', ''propertyIsEnumerable'', ''__proto__'', ''__defineGetter__'',
      ''__defineSetter__'', ''__lookupGetter__'', ''__lookupSetter__'']"

text \<open>
  An object literal of strings as a selector table; \<open>objectLiteral []\<close> is the \<open>{}\<close>
  that the constructor starts from.
\<close>

definition objectLiteral :: "(string \<times> string) list \<Rightarrow> (string \<rightharpoonup> property)" where
  "objectLiteral entries name =
     (case map_of entries name of
        Some v \<Rightarrow> Some (Selector v)
      | None \<Rightarrow> if name \<in> set prototypeNames then Some Inherited else None)"

definition getSelectors :: "baseObject \<Rightarrow> (string \<rightharpoonup> property)" where
  "getSelectors this = selectors this"

definition setSelectors :: "(string \<rightharpoonup> property) \<Rightarrow> baseObject \<Rightarrow> baseObject" where
  "setSelectors sels this = this\<lparr>selectors := sels\<rparr>"

text \<open>\<open>selectors[selectorName]\<close>: \<open>None\<close> is \<open>undefined\<close>.\<close>

definition getSelector :: "baseObject \<Rightarrow> string \<Rightarrow> property option" where
  "getSelector this selectorName = getSelectors this selectorName"

text \<open>
  \<open>!!selectors[selectorName]\<close>: the empty string is falsy, as \<open>undefined\<close> is; an
  inherited member is truthy.
\<close>

definition hasSelector :: "baseObject \<Rightarrow> string \<Rightarrow> bool" where
  "hasSelector this selectorName =
     (case getSelectors this selectorName of
        None \<Rightarrow> False
      | Some (Selector v) \<Rightarrow> v \<noteq> []
      | Some Inherited \<Rightarrow> True)"

text \<open>
  The value of the property read \<open>this.hasSelector\<close>: the method itself, a function
  object, which is truthy whatever the selector table holds.
\<close>

definition hasSelector_property :: "baseObject \<Rightarrow> bool" where
  "hasSelector_property this = True"

text \<open>
  \<open>addLoadSelector\<close>. The guard reads the property \<open>this.hasSelector\<close>; it does not
  call the method on \<open>selector\<close>.
\<close>

definition addLoadSelector :: "string \<Rightarrow> baseObject \<Rightarrow> error + baseObject" where
  "addLoadSelector selector this =
     (if \<not> hasSelector_property this
      then Inl (Error (''Cannot add an unknown selector to the load selector list: '' @ selector))
      else Inr (this\<lparr>loadSelectors := loadSelectors this @ [selector]\<rparr>))"

text \<open>\<open>addLoadSelectors\<close>: \<open>_.each\<close> over the names; the first throw ends it.\<close>

fun addLoadSelectors :: "string list \<Rightarrow> baseObject \<Rightarrow> error + baseObject" where
  "addLoadSelectors [] this = Inr this"
| "addLoadSelectors (selector # rest) this =
     (case addLoadSelector selector this of
        Inl e \<Rightarrow> Inl e
      | Inr this' \<Rightarrow> addLoadSelectors rest this')"

subsection \<open>Elements\<close>

definition getElement_of ::
  "('w, 'b) adapter \<Rightarrow> baseObject \<Rightarrow> string \<Rightarrow> 'w \<Rightarrow> element \<times> 'w" where
  "getElement_of A this selectorName s =
     getElement A (getContext this) (getSelector this selectorName) ''css selector'' s"

definition hasElement ::
  "('w, 'b) adapter \<Rightarrow> baseObject \<Rightarrow> string \<Rightarrow> 'w \<Rightarrow> bool \<times> 'w" where
  "hasElement A this selectorName s =
     (case getElements A (getContext this) (getSelector this selectorName) ''css selector'' s of
        (found, s') \<Rightarrow> (length found \<noteq> 0, s'))"

subsection \<open>The poll loop\<close>

text \<open>\<open>v || d\<close> on an optional number: \<open>undefined\<close> and \<open>0\<close> are falsy.\<close>

fun orDefault :: "int option \<Rightarrow> int \<Rightarrow> int" where
  "orDefault None d = d"
| "orDefault (Some v) d = (if v = 0 then d else v)"

definition timedOutMessage :: "string \<Rightarrow> string" where
  "timedOutMessage message = ''Waited for an event, but timed-out. Message:'' @ message"

text \<open>
  The \<open>while (!fn()) { ... }\<close> loop of \<open>waitUntil\<close>. Nothing in the code bounds the
  number of rounds, so the loop is a partial function: \<open>None\<close> is a wait that never
  ends. \<open>evs\<close> collects the calls made so far.
\<close>

partial_function (option) pollLoop ::
  "('a world_scheme, 'b) adapter \<Rightarrow> ('a world_scheme \<Rightarrow> predResult \<times> 'a world_scheme) \<Rightarrow>
   string \<Rightarrow> int \<Rightarrow> int \<Rightarrow> int \<Rightarrow> event list \<Rightarrow> 'a world_scheme \<Rightarrow>
   (outcome \<times> event list \<times> 'a world_scheme) option" where
  "pollLoop A fn message startTime timeOut waitInMs evs s =
     (case fn s of (r, s1) \<Rightarrow>
        if truthy r then Some (Returned, evs @ [Evaluated r], s1)
        else if clock s1 - startTime \<ge> timeOut
          then Some (Threw (Error (timedOutMessage message)), evs @ [Evaluated r], s1)
          else pollLoop A fn message startTime timeOut waitInMs
                 (evs @ [Evaluated r, Slept waitInMs]) (sleep A waitInMs s1))"

declare pollLoop.simps [code]

text \<open>
  \<open>waitUntil\<close>. The predicate is called once before the loop and its result is looked
  at for a \<open>then\<close> property only; the thenable branch is empty in the code.
\<close>

definition waitUntil ::
  "('a world_scheme, 'b) adapter \<Rightarrow> ('a world_scheme \<Rightarrow> predResult \<times> 'a world_scheme) \<Rightarrow>
   string \<Rightarrow> int option \<Rightarrow> int option \<Rightarrow> 'a world_scheme \<Rightarrow>
   (outcome \<times> event list \<times> 'a world_scheme) option" where
  "waitUntil A fn message timeOut waitInMs s =
     (let startTime = clock s;
          timeOut' = orDefault timeOut 10000;
          waitInMs' = orDefault waitInMs 500
      in case fn s of (result, s1) \<Rightarrow>
           if truthy result \<and> isThenable result
           then Some (Returned, [Evaluated result], s1)
           else pollLoop A fn message startTime timeOut' waitInMs' [Evaluated result] s1)"

text \<open>\<open>selectors.join(', ')\<close>\<close>

fun join :: "string \<Rightarrow> string list \<Rightarrow> string" where
  "join sep [] = []"
| "join sep [a] = a"
| "join sep (a # b # rest) = a @ sep @ join sep (b # rest)"

text \<open>
  The predicate of \<open>waitForElements\<close>: \<open>_.each\<close> over the names with the flag
  \<open>allLoaded\<close>; once the flag is false no further element is queried.
\<close>

fun eachLoaded ::
  "('w, 'b) adapter \<Rightarrow> baseObject \<Rightarrow> string list \<Rightarrow> bool \<Rightarrow> 'w \<Rightarrow> bool \<times> 'w" where
  "eachLoaded A this [] allLoaded s = (allLoaded, s)"
| "eachLoaded A this (selector # rest) allLoaded s =
     (if allLoaded
      then (case hasElement A this selector s of
              (present, s') \<Rightarrow> eachLoaded A this rest (allLoaded \<and> present) s')
      else eachLoaded A this rest allLoaded s)"

definition allLoadedFn ::
  "('w, 'b) adapter \<Rightarrow> baseObject \<Rightarrow> string list \<Rightarrow> 'w \<Rightarrow> predResult \<times> 'w" where
  "allLoadedFn A this sels s =
     (case eachLoaded A this sels True s of (allLoaded, s') \<Rightarrow> (Plain allLoaded, s'))"

definition waitForElements ::
  "('a world_scheme, 'b) adapter \<Rightarrow> baseObject \<Rightarrow> string list \<Rightarrow> int option \<Rightarrow> int option \<Rightarrow>
   'a world_scheme \<Rightarrow> (outcome \<times> event list \<times> 'a world_scheme) option" where
  "waitForElements A this sels timeOut waitInMs s =
     waitUntil A (allLoadedFn A this sels)
       (''Waited for selectors '' @ [CHR 0x27] @ join '', '' sels @ [CHR 0x27]) timeOut waitInMs s"

definition verifyIsLoaded ::
  "('a world_scheme, 'b) adapter \<Rightarrow> baseObject \<Rightarrow> int option \<Rightarrow> int option \<Rightarrow>
   'a world_scheme \<Rightarrow> (outcome \<times> event list \<times> 'a world_scheme) option" where
  "verifyIsLoaded A this timeOut waitInMs s =
     waitForElements A this (loadSelectors this) timeOut waitInMs s"

subsection \<open>Frames\<close>

definition zeroRect :: rect where
  "zeroRect = \<lparr>rect_x = 0, rect_y = 0, rect_width = 0, rect_height = 0\<rparr>"

text \<open>
  \<open>getFrame\<close>. \<open>selectorName\<close> is optional; \<open>undefined\<close> and the empty string both
  select the context.
\<close>

definition getFrame ::
  "('w, 'b) adapter \<Rightarrow> baseObject \<Rightarrow> string option \<Rightarrow> 'w \<Rightarrow> rect \<times> 'w" where
  "getFrame A this selectorName s =
     (case (case selectorName of
              None \<Rightarrow> (getContext this, s)
            | Some n \<Rightarrow> if n \<noteq> [] then getElement_of A this n s else (getContext this, s)) of
        (element, s') \<Rightarrow>
          (case elemFrame element of
             Some f \<Rightarrow> (f, s')
           | None \<Rightarrow> (zeroRect, s')))"

subsection \<open>Black-outs\<close>

text \<open>
  An entry of a black-out list: an object with an \<open>x\<close>, taken as the rectangle it
  is, or an object without one, asked for its \<open>getFrame()\<close>.
\<close>

datatype blackOutEntry = Coordinates rect | FrameOf element

definition blackOut :: "baseObject \<Rightarrow> blackOutEntry list" where
  "blackOut this = []"

fun resolveEntry :: "blackOutEntry \<Rightarrow> error + rect" where
  "resolveEntry (Coordinates r) = Inr r"
| "resolveEntry (FrameOf e) =
     (case elemFrame e of
        Some f \<Rightarrow> Inr f
      | None \<Rightarrow> Inl (TypeError ''getFrame''))"

text \<open>\<open>blackOutList.map(...)\<close>; a throw in the callback ends the map.\<close>

fun resolveAll :: "blackOutEntry list \<Rightarrow> error + rect list" where
  "resolveAll [] = Inr []"
| "resolveAll (entry # rest) =
     (case resolveEntry entry of
        Inl err \<Rightarrow> Inl err
      | Inr r \<Rightarrow> (case resolveAll rest of
                   Inl err \<Rightarrow> Inl err
                 | Inr rs \<Rightarrow> Inr (r # rs)))"

subsection \<open>Static configuration and file names\<close>

text \<open>\<open>a || b\<close> on optional strings: \<open>undefined\<close> and the empty string are falsy.\<close>

definition orElse :: "string option \<Rightarrow> string option \<Rightarrow> string option" where
  "orElse a b = (case a of None \<Rightarrow> b | Some v \<Rightarrow> if v \<noteq> [] then a else b)"

text \<open>
  A setting as the static getters read it: the property of the class, the global of the
  same name, the environment variable of the same name.
\<close>

record setting =
  ofClass :: "string option"
  ofGlobal :: "string option"
  ofEnv :: "string option"

record statics =
  SCREENSHOT_PATH :: setting
  SCREENSHOT_PREFIX :: setting

definition getScreenshotPath :: "statics \<Rightarrow> string option" where
  "getScreenshotPath st =
     orElse (orElse (ofClass (SCREENSHOT_PATH st)) (ofGlobal (SCREENSHOT_PATH st)))
       (ofEnv (SCREENSHOT_PATH st))"

definition getScreenshotPrefix :: "statics \<Rightarrow> string option" where
  "getScreenshotPrefix st =
     orElse (orElse (ofClass (SCREENSHOT_PREFIX st)) (ofGlobal (SCREENSHOT_PREFIX st)))
       (ofEnv (SCREENSHOT_PREFIX st))"

text \<open>
  \<open>utils.fileNameSafe\<close> (package \<open>preceptor-core\<close>) and \<open>nodePath.join\<close> are not
  part of this repository; they are parameters. \<open>pathJoin\<close> is \<open>nodePath.join\<close> on
  two strings; called with \<open>undefined\<close> it throws, which is written out in
  \<open>capture\<close>.
\<close>

record externals =
  fileNameSafe :: "string \<Rightarrow> string"
  pathJoin :: "string \<Rightarrow> string \<Rightarrow> string"

text \<open>\<open>id || '1'\<close>\<close>

fun idOrOne :: "string option \<Rightarrow> string" where
  "idOrOne None = ''1''"
| "idOrOne (Some v) = (if v = [] then ''1'' else v)"

text \<open>The file name that \<open>capture\<close> computes.\<close>

definition captureFileName ::
  "(string \<Rightarrow> string) \<Rightarrow> string option \<Rightarrow> string \<Rightarrow> string option \<Rightarrow> string" where
  "captureFileName safe prefix title ident =
     (let fileName = safe title @ ''_'' @ safe (idOrOne ident) @ ''.png''
      in case prefix of
           None \<Rightarrow> fileName
         | Some p \<Rightarrow> if p \<noteq> [] then safe p @ ''_'' @ fileName else fileName)"

subsection \<open>The image codec\<close>

record rgba =
  red :: nat
  green :: nat
  blue :: nat
  alpha :: nat

text \<open>
  The image library (package \<open>pngjs-image\<close>) is not part of this repository; it is a
  parameter. \<open>loadImage\<close> and \<open>writeImage\<close> report through a callback: the model
  takes from the library what the callback is called with and when, before the call
  returns (\<open>Immediate\<close>) or from a later turn of the event loop (\<open>Deferred\<close>).
\<close>

datatype timing = Immediate | Deferred

record ('b, 'img) codec =
  loadImage :: "'b \<Rightarrow> timing \<times> (error + 'img)"
  fillRect :: "int \<Rightarrow> int \<Rightarrow> int \<Rightarrow> int \<Rightarrow> rgba \<Rightarrow> 'img \<Rightarrow> 'img"
  clip :: "int \<Rightarrow> int \<Rightarrow> int \<Rightarrow> int \<Rightarrow> 'img \<Rightarrow> 'img"
  writeImage :: "string \<Rightarrow> 'img \<Rightarrow> timing \<times> error option"

subsection \<open>Capture\<close>

definition opaqueBlack :: rgba where
  "opaqueBlack = \<lparr>red = 0, green = 0, blue = 0, alpha = 255\<rparr>"

text \<open>The \<open>for\<close> loop over \<open>blackOutList\<close>.\<close>

fun fillBlackOuts :: "('b, 'img) codec \<Rightarrow> rect list \<Rightarrow> 'img \<Rightarrow> 'img" where
  "fillBlackOuts C [] img = img"
| "fillBlackOuts C (b # rest) img =
     fillBlackOuts C rest
       (fillRect C (rect_x b) (rect_y b) (rect_width b) (rect_height b) opaqueBlack img)"

text \<open>What the load callback does to the image before it writes it.\<close>

definition redactAndClip :: "('b, 'img) codec \<Rightarrow> rect list \<Rightarrow> rect \<Rightarrow> 'img \<Rightarrow> 'img" where
  "redactAndClip C blackOutList frame img =
     (let img' = fillBlackOuts C blackOutList img
      in if rect_width frame \<noteq> 0 \<and> rect_height frame \<noteq> 0
         then clip C (rect_x frame) (rect_y frame) (rect_width frame) (rect_height frame) img'
         else img')"

datatype 'o promise = Pending | Resolved 'o | Rejected error

text \<open>
  How a call of \<open>capture\<close> ends: the state of the promise it returned, an exception
  that left a callback with no handler around it, and the image handed to
  \<open>writeImage\<close>.
\<close>

record 'img settlement =
  promise :: "baseObject promise"
  uncaught :: "error option"
  written :: "'img option"

text \<open>
  The variable \<open>image\<close> is assigned when \<open>loadImage\<close> returns. A callback that runs
  before that reads \<open>undefined\<close>; this is the property it reads first.
\<close>

definition firstUse :: "rect list \<Rightarrow> rect \<Rightarrow> string" where
  "firstUse blackOutList frame =
     (if blackOutList \<noteq> [] then ''fillRect''
      else if rect_width frame \<noteq> 0 \<and> rect_height frame \<noteq> 0 then ''clip''
      else ''writeImage'')"

text \<open>
  The executor of the promise. The \<open>try\<close> block encloses the call of \<open>loadImage\<close>
  only: a \<open>throw\<close> in a callback reaches \<open>catch\<close>, and so \<open>reject\<close>, when the
  callback runs before \<open>loadImage\<close> has returned, and leaves the promise pending
  otherwise.
\<close>

definition capturePromise ::
  "('b, 'img) codec \<Rightarrow> rect list \<Rightarrow> rect \<Rightarrow> 'b \<Rightarrow> string \<Rightarrow> baseObject \<Rightarrow> 'img settlement" where
  "capturePromise C blackOutList frame buffer path this =
     (case loadImage C buffer of
        (Immediate, Inl err) \<Rightarrow>
          \<lparr>promise = Rejected err, uncaught = None, written = None\<rparr>
      | (Immediate, Inr decoded) \<Rightarrow>
          \<lparr>promise = Rejected (TypeError (firstUse blackOutList frame)),
           uncaught = None, written = None\<rparr>
      | (Deferred, Inl err) \<Rightarrow>
          \<lparr>promise = Pending, uncaught = Some err, written = None\<rparr>
      | (Deferred, Inr decoded) \<Rightarrow>
          (let img = redactAndClip C blackOutList frame decoded
           in case writeImage C path img of
                (when, Some err) \<Rightarrow>
                  \<lparr>promise = Pending, uncaught = Some err, written = Some img\<rparr>
              | (when, None) \<Rightarrow>
                  \<lparr>promise = Resolved this, uncaught = None, written = Some img\<rparr>))"

record 'img captureRun =
  fileName :: string
  filePath :: string
  settled :: "'img settlement"

text \<open>
  \<open>capture\<close>. Two throws leave it before there is a promise: an entry of the
  black-out list without \<open>x\<close> and without \<open>getFrame\<close>, and no screenshot directory
  configured, where \<open>nodePath.join\<close> is called with \<open>undefined\<close>.
\<close>

definition capture ::
  "('w, 'b) adapter \<Rightarrow> ('b, 'img) codec \<Rightarrow> externals \<Rightarrow> statics \<Rightarrow> baseObject \<Rightarrow>
   string \<Rightarrow> string option \<Rightarrow> int option \<Rightarrow> blackOutEntry list option \<Rightarrow> 'w \<Rightarrow>
   (error + 'img captureRun) \<times> 'w" where
  "capture A C U st this title ident wait additionalBlackOuts s =
     (let s1 = sleep A (orDefault wait 1000) s
      in case resolveAll (blackOut this @
                (case additionalBlackOuts of None \<Rightarrow> [] | Some extra \<Rightarrow> extra)) of
           Inl err \<Rightarrow> (Inl err, s1)
         | Inr blackOutList \<Rightarrow>
             (case getFrame A this None s1 of (frame, s2) \<Rightarrow>
              case takeScreenshot A s2 of (buffer, s3) \<Rightarrow>
                let prefix = getScreenshotPrefix st;
                    name = captureFileName (fileNameSafe U) prefix title ident
                in case getScreenshotPath st of
                     None \<Rightarrow> (Inl (TypeError ''path''), s3)
                   | Some dir \<Rightarrow>
                       let path = pathJoin U dir name
                       in (Inr \<lparr>fileName = name, filePath = path,
                                settled = capturePromise C blackOutList frame buffer path this\<rparr>,
                           s3)))"

subsection \<open>A pixel model of the image library\<close>

text \<open>An image is the map from the coordinates it has to their colours.\<close>

type_synonym pixels = "int \<times> int \<rightharpoonup> rgba"

definition inRect :: "int \<Rightarrow> int \<Rightarrow> int \<Rightarrow> int \<Rightarrow> int \<times> int \<Rightarrow> bool" where
  "inRect x0 y0 w h p = (x0 \<le> fst p \<and> fst p < x0 + w \<and> y0 \<le> snd p \<and> snd p < y0 + h)"

text \<open>
  Modelled from the spec: \<open>MutableImage.fillRect(x, y, w, h, color)\<close> of the image
  library, which is not under src/. It gives every pixel of the image that lies in the
  rectangle the colour and leaves the others as they are.
\<close>

definition px_fillRect :: "int \<Rightarrow> int \<Rightarrow> int \<Rightarrow> int \<Rightarrow> rgba \<Rightarrow> pixels \<Rightarrow> pixels" where
  "px_fillRect x0 y0 w h c img =
     (\<lambda>p. case img p of
             None \<Rightarrow> None
           | Some old \<Rightarrow> if inRect x0 y0 w h p then Some c else Some old)"

text \<open>
  Modelled from the spec: \<open>MutableImage.clip(x, y, w, h)\<close> of the image library, which
  is not under src/. The result is the part of the image inside the rectangle, with the
  rectangle's corner as the new origin.
\<close>

definition px_clip :: "int \<Rightarrow> int \<Rightarrow> int \<Rightarrow> int \<Rightarrow> pixels \<Rightarrow> pixels" where
  "px_clip x0 y0 w h img =
     (\<lambda>p. if inRect 0 0 w h p then img (x0 + fst p, y0 + snd p) else None)"

definition pixelCodec ::
  "('b \<Rightarrow> timing \<times> (error + pixels)) \<Rightarrow> (string \<Rightarrow> pixels \<Rightarrow> timing \<times> error option) \<Rightarrow>
   ('b, pixels) codec" where
  "pixelCodec load write =
     \<lparr>loadImage = load, fillRect = px_fillRect, clip = px_clip, writeImage = write\<rparr>"

section \<open>Properties\<close>

subsection \<open>What is assumed of the clock, the predicate and the adapter\<close>

definition neverTruthy :: "('w \<Rightarrow> predResult \<times> 'w) \<Rightarrow> bool" where
  "neverTruthy fn = (\<forall>s. \<not> truthy (fst (fn s)))"

text \<open>A call does not move the clock backwards; a call takes no time on the clock.\<close>

definition clockNotBack :: "('a world_scheme \<Rightarrow> 'r \<times> 'a world_scheme) \<Rightarrow> bool" where
  "clockNotBack fn = (\<forall>s. clock s \<le> clock (snd (fn s)))"

definition takesNoTime :: "('a world_scheme \<Rightarrow> 'r \<times> 'a world_scheme) \<Rightarrow> bool" where
  "takesNoTime fn = (\<forall>s. clock (snd (fn s)) = clock s)"

definition sleepsAtLeast :: "('a world_scheme, 'b) adapter \<Rightarrow> int \<Rightarrow> bool" where
  "sleepsAtLeast A w = (\<forall>s. clock s + w \<le> clock (sleep A w s))"

definition sleepsExactly :: "('a world_scheme, 'b) adapter \<Rightarrow> int \<Rightarrow> bool" where
  "sleepsExactly A w = (\<forall>s. clock (sleep A w s) = clock s + w)"

definition neverPresent :: "('w, 'b) adapter \<Rightarrow> baseObject \<Rightarrow> string \<Rightarrow> bool" where
  "neverPresent A this name =
     (\<forall>s. fst (getElements A (getContext this) (getSelector this name) ''css selector'' s) = [])"

definition alwaysPresent :: "('w, 'b) adapter \<Rightarrow> baseObject \<Rightarrow> string \<Rightarrow> bool" where
  "alwaysPresent A this name =
     (\<forall>s. fst (getElements A (getContext this) (getSelector this name) ''css selector'' s) \<noteq> [])"

definition queriesNotBack :: "('a world_scheme, 'b) adapter \<Rightarrow> bool" where
  "queriesNotBack A = (\<forall>c sel how s. clock s \<le> clock (snd (getElements A c sel how s)))"

definition queriesTakeNoTime :: "('a world_scheme, 'b) adapter \<Rightarrow> bool" where
  "queriesTakeNoTime A = (\<forall>c sel how s. clock (snd (getElements A c sel how s)) = clock s)"

subsection \<open>Shapes of the call log\<close>

text \<open>
  The log of a wait that timed out after \<open>n\<close> sleeps: the evaluation before the loop,
  \<open>n\<close> rounds of a failed evaluation followed by a sleep, and a last failed evaluation.
\<close>

definition timedOutLog :: "int \<Rightarrow> nat \<Rightarrow> event list" where
  "timedOutLog w n =
     Evaluated (Plain False) # concat (replicate n [Evaluated (Plain False), Slept w])
       @ [Evaluated (Plain False)]"

text \<open>Every sleep in the log comes directly after an evaluation that was not truthy.\<close>

fun sleepsOnlyAfterFalsy :: "event list \<Rightarrow> bool" where
  "sleepsOnlyAfterFalsy [] = True"
| "sleepsOnlyAfterFalsy (Slept d # rest) = False"
| "sleepsOnlyAfterFalsy (Evaluated r # Slept d # rest) = (\<not> truthy r \<and> sleepsOnlyAfterFalsy rest)"
| "sleepsOnlyAfterFalsy (Evaluated r # rest) = sleepsOnlyAfterFalsy rest"

subsection \<open>What a capture sees and what it writes\<close>

text \<open>
  A capture that starts in \<open>s\<close> has a directory to write to, finds the frame \<open>f\<close>
  after its settle delay and then takes the screenshot \<open>buffer\<close>.
\<close>

definition shoots ::
  "('w, 'b) adapter \<Rightarrow> statics \<Rightarrow> baseObject \<Rightarrow> int option \<Rightarrow> 'w \<Rightarrow> rect \<Rightarrow> 'b \<Rightarrow> bool" where
  "shoots A st this wait s f buffer =
     (getScreenshotPath st \<noteq> None \<and>
      (case getFrame A this None (sleep A (orDefault wait 1000) s) of
         (frame, s') \<Rightarrow> frame = f \<and> fst (takeScreenshot A s') = buffer))"

text \<open>The image that a call of \<open>capture\<close> handed to \<open>writeImage\<close>, if it did.\<close>

definition writtenImage :: "(error + 'img captureRun) \<times> 'w \<Rightarrow> 'img option" where
  "writtenImage result =
     (case fst result of
        Inl err \<Rightarrow> None
      | Inr run \<Rightarrow> written (settled run))"

subsection \<open>Rectangles\<close>

text \<open>\<open>b\<close> lies beside \<open>f\<close>: to its left, to its right, above it or below it.\<close>

definition outsideOf :: "rect \<Rightarrow> rect \<Rightarrow> bool" where
  "outsideOf b f =
     (rect_x b + rect_width b \<le> rect_x f \<or> rect_x f + rect_width f \<le> rect_x b \<or>
      rect_y b + rect_height b \<le> rect_y f \<or> rect_y f + rect_height f \<le> rect_y b)"

definition insideOf :: "rect \<Rightarrow> rect \<Rightarrow> bool" where
  "insideOf b f =
     (rect_x f \<le> rect_x b \<and> rect_x b + rect_width b \<le> rect_x f + rect_width f \<and>
      rect_y f \<le> rect_y b \<and> rect_y b + rect_height b \<le> rect_y f + rect_height f)"

subsection \<open>Sample pages, drivers and libraries\<close>

text \<open>The page of the scenarios: two named selectors, a context without \<open>getFrame\<close>.\<close>

definition page :: baseObject where
  "page = \<lparr>ctxt = \<lparr>handle = 0, elemFrame = None\<rparr>,
           loadSelectors = [''header'', ''body''],
           selectors = objectLiteral [(''header'', ''.hdr''), (''body'', ''.bd'')]\<rparr>"

text \<open>
  A driver whose sleep lasts as long as asked, around a given element query. Its
  screenshot is the buffer \<open>0\<close>.
\<close>

definition driver ::
  "(element \<Rightarrow> property option \<Rightarrow> string \<Rightarrow> world \<Rightarrow> element list \<times> world) \<Rightarrow> (world, nat) adapter" where
  "driver query =
     \<lparr>sleep = (\<lambda>d s. s\<lparr>clock := clock s + d\<rparr>),
      getElements = query,
      getElement = (\<lambda>c sel how s. (c, s)),
      takeScreenshot = (\<lambda>s. (0, s))\<rparr>"

text \<open>The header is on the page, the body never is; a query takes no time.\<close>

definition headerOnly :: "element \<Rightarrow> property option \<Rightarrow> string \<Rightarrow> world \<Rightarrow> element list \<times> world" where
  "headerOnly c sel how s = (if sel = Some (Selector ''.hdr'') then [c] else [], s)"

text \<open>Every element is on the page; a query takes no time.\<close>

definition allThere :: "element \<Rightarrow> property option \<Rightarrow> string \<Rightarrow> world \<Rightarrow> element list \<times> world" where
  "allThere c sel how s = ([c], s)"

text \<open>Nothing is ever on the page, and a query takes 300 ms.\<close>

definition slowQuery :: "element \<Rightarrow> property option \<Rightarrow> string \<Rightarrow> world \<Rightarrow> element list \<times> world" where
  "slowQuery c sel how s = ([], s\<lparr>clock := clock s + 300\<rparr>)"

text \<open>Every element is on the page at time 0 and gone afterwards; a query takes 1 ms.\<close>

definition vanishing :: "element \<Rightarrow> property option \<Rightarrow> string \<Rightarrow> world \<Rightarrow> element list \<times> world" where
  "vanishing c sel how s = (if clock s = 0 then [c] else [], s\<lparr>clock := clock s + 1\<rparr>)"

text \<open>A predicate that is true at time 0 and false afterwards; a call takes 1 ms.\<close>

definition trueOnce :: "world \<Rightarrow> predResult \<times> world" where
  "trueOnce s = (Plain (clock s = 0), s\<lparr>clock := clock s + 1\<rparr>)"

text \<open>A predicate that is false whenever it is asked, in no time.\<close>

definition alwaysFalse :: "world \<Rightarrow> predResult \<times> world" where
  "alwaysFalse s = (Plain False, s)"

text \<open>A predicate that returns a promise which settles with \<open>false\<close>.\<close>

definition promisesFalse :: "world \<Rightarrow> predResult \<times> world" where
  "promisesFalse s = (Thenable False, s)"

text \<open>
  \<open>utils.fileNameSafe\<close> as the package \<open>preceptor-core\<close> has it, which is not under
  src/: every character that is not a letter or a digit becomes a hyphen.
\<close>

definition keepsAlnum :: "char \<Rightarrow> bool" where
  "keepsAlnum c =
     (let n = (of_char c :: nat)
      in (48 \<le> n \<and> n \<le> 57) \<or> (65 \<le> n \<and> n \<le> 90) \<or> (97 \<le> n \<and> n \<le> 122))"

definition hyphenated :: "string \<Rightarrow> string" where
  "hyphenated str = map (\<lambda>c. if keepsAlnum c then c else CHR ''-'') str"

text \<open>\<open>nodePath.join\<close> on a directory name without a trailing slash and a file name.\<close>

definition sampleExternals :: externals where
  "sampleExternals =
     \<lparr>fileNameSafe = hyphenated,
      pathJoin = (\<lambda>dir name. dir @ ''/'' @ name)\<rparr>"

definition sampleStatics :: statics where
  "sampleStatics =
     \<lparr>SCREENSHOT_PATH = \<lparr>ofClass = None, ofGlobal = Some ''shots'', ofEnv = None\<rparr>,
      SCREENSHOT_PREFIX = \<lparr>ofClass = Some ''suite1'', ofGlobal = None, ofEnv = None\<rparr>\<rparr>"

text \<open>The same, with a screenshot directory that cannot be written to.\<close>

definition readOnlyStatics :: statics where
  "readOnlyStatics =
     \<lparr>SCREENSHOT_PATH = \<lparr>ofClass = None, ofGlobal = Some ''readonly'', ofEnv = None\<rparr>,
      SCREENSHOT_PREFIX = \<lparr>ofClass = Some ''suite1'', ofGlobal = None, ofEnv = None\<rparr>\<rparr>"

text \<open>A 4 by 4 image, white all over.\<close>

definition white :: rgba where
  "white = \<lparr>red = 255, green = 255, blue = 255, alpha = 255\<rparr>"

definition whiteSquare :: pixels where
  "whiteSquare = (\<lambda>p. if inRect 0 0 4 4 p then Some white else None)"

text \<open>
  A library that decodes the buffer \<open>0\<close> to the white square, calling back from a later
  turn of the event loop, and that refuses every other buffer before \<open>loadImage\<close>
  returns. It writes every image but into the directory \<open>readonly\<close>, and reports the
  outcome of a write from a later turn of the event loop.
\<close>

definition sampleLoad :: "nat \<Rightarrow> timing \<times> (error + pixels)" where
  "sampleLoad buffer =
     (if buffer = 0 then (Deferred, Inr whiteSquare)
      else (Immediate, Inl (Error ''Invalid file signature'')))"

definition sampleWrite :: "string \<Rightarrow> pixels \<Rightarrow> timing \<times> error option" where
  "sampleWrite path img =
     (Deferred, if take 9 path = ''readonly/'' then Some (Error ''EACCES'') else None)"

definition sampleCodec :: "(nat, pixels) codec" where
  "sampleCodec = pixelCodec sampleLoad sampleWrite"

text \<open>A frame inside the white square, a black-out beside it and one inside it.\<close>

definition sampleFrame :: rect where
  "sampleFrame = \<lparr>rect_x = 1, rect_y = 1, rect_width = 2, rect_height = 2\<rparr>"

definition cornerRect :: rect where
  "cornerRect = \<lparr>rect_x = 0, rect_y = 0, rect_width = 1, rect_height = 1\<rparr>"

definition innerRect :: rect where
  "innerRect = \<lparr>rect_x = 2, rect_y = 2, rect_width = 1, rect_height = 1\<rparr>"

text \<open>The sample page with a context that has a frame.\<close>

definition framedPage :: baseObject where
  "framedPage = page\<lparr>ctxt := \<lparr>handle = 0, elemFrame = Some sampleFrame\<rparr>\<rparr>"

section \<open>Proofs\<close>

subsection \<open>A wait on a predicate that is never truthy\<close>

lemma falsy_is_Plain_False: "\<not> truthy r \<Longrightarrow> r = Plain False"
  by (cases r) auto

lemma pollLoop_never:
  assumes never: "neverTruthy fn"
      and mono: "clockNotBack fn"
      and prog: "sleepsAtLeast A w"
      and w: "0 < w"
  shows "\<exists>n s'. pollLoop A fn msg st T w evs s =
           Some (Threw (Error (timedOutMessage msg)),
                 evs @ concat (replicate n [Evaluated (Plain False), Slept w]) @ [Evaluated (Plain False)], s')
           \<and> T \<le> clock s' - st
           \<and> (takesNoTime fn \<and> sleepsExactly A w \<and> clock s - st < T + w \<longrightarrow> clock s' - st < T + w)"
proof (induction "nat (st + T - clock s)" arbitrary: s evs rule: less_induct)
  case less
  obtain r s1 where fs: "fn s = (r, s1)" by (cases "fn s")
  have r: "r = Plain False"
    using never fs by (auto simp: neverTruthy_def dest!: spec[of _ s] intro: falsy_is_Plain_False)
  have c1: "clock s \<le> clock s1"
    using mono fs by (auto simp: clockNotBack_def dest!: spec[of _ s])
  have e1: "takesNoTime fn \<Longrightarrow> clock s1 = clock s"
    using fs by (auto simp: takesNoTime_def dest!: spec[of _ s])
  show ?case
  proof (cases "T \<le> clock s1 - st")
    case True
    have "pollLoop A fn msg st T w evs s =
          Some (Threw (Error (timedOutMessage msg)),
                evs @ concat (replicate 0 [Evaluated (Plain False), Slept w]) @ [Evaluated (Plain False)], s1)"
      using True fs r by (subst pollLoop.simps) simp
    moreover have "takesNoTime fn \<and> sleepsExactly A w \<and> clock s - st < T + w \<longrightarrow> clock s1 - st < T + w"
      using e1 by simp
    ultimately show ?thesis using True by blast
  next
    case False
    let ?s2 = "sleep A w s1"
    have c2: "clock s1 + w \<le> clock ?s2"
      using prog by (simp add: sleepsAtLeast_def)
    have e2: "sleepsExactly A w \<Longrightarrow> clock ?s2 = clock s1 + w"
      by (simp add: sleepsExactly_def)
    have "nat (st + T - clock ?s2) < nat (st + T - clock s)"
      using False c1 c2 w by linarith
    from less[OF this, of "evs @ [Evaluated r, Slept w]"]
    obtain n s' where rec: "pollLoop A fn msg st T w (evs @ [Evaluated r, Slept w]) ?s2 =
           Some (Threw (Error (timedOutMessage msg)),
                 (evs @ [Evaluated r, Slept w]) @ concat (replicate n [Evaluated (Plain False), Slept w])
                   @ [Evaluated (Plain False)], s')"
       and bd: "T \<le> clock s' - st"
       and ex: "takesNoTime fn \<and> sleepsExactly A w \<and> clock ?s2 - st < T + w \<longrightarrow> clock s' - st < T + w"
      by blast
    have "pollLoop A fn msg st T w evs s = pollLoop A fn msg st T w (evs @ [Evaluated r, Slept w]) ?s2"
      using False fs r by (subst pollLoop.simps) simp
    with rec r have run: "pollLoop A fn msg st T w evs s =
        Some (Threw (Error (timedOutMessage msg)),
              evs @ concat (replicate (Suc n) [Evaluated (Plain False), Slept w]) @ [Evaluated (Plain False)], s')"
      by simp
    have "takesNoTime fn \<and> sleepsExactly A w \<and> clock s - st < T + w \<longrightarrow> clock s' - st < T + w"
      using ex e2 False by auto
    with run bd show ?thesis by blast
  qed
qed

lemma waitUntil_never:
  assumes never: "neverTruthy fn"
      and mono: "clockNotBack fn"
      and prog: "sleepsAtLeast A (orDefault waitInMs 500)"
      and w: "0 < orDefault waitInMs 500"
  shows "\<exists>n s'. waitUntil A fn description timeOut waitInMs s =
           Some (Threw (Error (timedOutMessage description)), timedOutLog (orDefault waitInMs 500) n, s')
           \<and> orDefault timeOut 10000 \<le> clock s' - clock s
           \<and> (takesNoTime fn \<and> sleepsExactly A (orDefault waitInMs 500) \<and> 0 < orDefault timeOut 10000
                \<longrightarrow> clock s' - clock s < orDefault timeOut 10000 + orDefault waitInMs 500)"
proof -
  let ?w = "orDefault waitInMs 500" and ?T = "orDefault timeOut 10000"
  obtain r s1 where fs: "fn s = (r, s1)" by (cases "fn s")
  have r: "r = Plain False"
    using never fs by (auto simp: neverTruthy_def dest!: spec[of _ s] intro: falsy_is_Plain_False)
  have e1: "takesNoTime fn \<Longrightarrow> clock s1 = clock s"
    using fs by (auto simp: takesNoTime_def dest!: spec[of _ s])
  from pollLoop_never[OF never mono prog w, of description "clock s" ?T "[Evaluated r]" s1]
  obtain n s' where run: "pollLoop A fn description (clock s) ?T ?w [Evaluated r] s1 =
           Some (Threw (Error (timedOutMessage description)),
                 [Evaluated r] @ concat (replicate n [Evaluated (Plain False), Slept ?w]) @ [Evaluated (Plain False)], s')"
     and bd: "?T \<le> clock s' - clock s"
     and ex: "takesNoTime fn \<and> sleepsExactly A ?w \<and> clock s1 - clock s < ?T + ?w \<longrightarrow> clock s' - clock s < ?T + ?w"
    by blast
  have "waitUntil A fn description timeOut waitInMs s =
        Some (Threw (Error (timedOutMessage description)), timedOutLog ?w n, s')"
    using run fs r by (simp add: waitUntil_def timedOutLog_def)
  moreover have "takesNoTime fn \<and> sleepsExactly A ?w \<and> 0 < ?T \<longrightarrow> clock s' - clock s < ?T + ?w"
    using ex e1 w by auto
  ultimately show ?thesis using bd by blast
qed

lemma eachLoaded_False: "eachLoaded A this names False s = (False, s)"
  by (induction names) auto

lemma eachLoaded_missing:
  "name \<in> set names \<Longrightarrow> neverPresent A this name \<Longrightarrow> fst (eachLoaded A this names b s) = False"
proof (induction names arbitrary: b s)
  case Nil
  then show ?case by simp
next
  case (Cons a names)
  show ?case
  proof (cases b)
    case False
    then show ?thesis by (simp add: eachLoaded_False)
  next
    case True
    show ?thesis
    proof (cases "a = name")
      case eq: True
      have "fst (hasElement A this name s) = False"
        using Cons.prems(2) by (auto simp: neverPresent_def hasElement_def split: prod.splits dest!: spec[of _ s])
      then show ?thesis using True eq
        by (auto simp: eachLoaded_False split: prod.splits)
    next
      case False
      then have "name \<in> set names" using Cons.prems(1) by simp
      from Cons.IH[OF this Cons.prems(2)] show ?thesis using True
        by (auto split: prod.splits)
    qed
  qed
qed

lemma hasElement_snd:
  "snd (hasElement A this a s) =
     snd (getElements A (getContext this) (getSelector this a) ''css selector'' s)"
  by (simp add: hasElement_def split: prod.splits)

lemma allLoadedFn_fst: "fst (allLoadedFn A this names s) = Plain (fst (eachLoaded A this names True s))"
  by (simp add: allLoadedFn_def split: prod.splits)

lemma allLoadedFn_snd: "snd (allLoadedFn A this names s) = snd (eachLoaded A this names True s)"
  by (simp add: allLoadedFn_def split: prod.splits)

lemma eachLoaded_clock:
  "queriesNotBack A \<Longrightarrow> clock s \<le> clock (snd (eachLoaded A this names b s))"
proof (induction names arbitrary: b s)
  case Nil
  then show ?case by simp
next
  case (Cons a names)
  obtain p s1 where h: "hasElement A this a s = (p, s1)" by (cases "hasElement A this a s")
  have "clock s \<le> clock (snd (hasElement A this a s))"
    using Cons.prems unfolding hasElement_snd by (simp add: queriesNotBack_def)
  then have "clock s \<le> clock s1" using h by simp
  moreover have "clock s1 \<le> clock (snd (eachLoaded A this names (b \<and> p) s1))"
    by (rule Cons.IH[OF Cons.prems])
  moreover have "clock s \<le> clock (snd (eachLoaded A this names b s))"
    by (rule Cons.IH[OF Cons.prems])
  ultimately show ?case using h by auto
qed

lemma eachLoaded_noTime:
  "queriesTakeNoTime A \<Longrightarrow> clock (snd (eachLoaded A this names b s)) = clock s"
proof (induction names arbitrary: b s)
  case Nil
  then show ?case by simp
next
  case (Cons a names)
  obtain p s1 where h: "hasElement A this a s = (p, s1)" by (cases "hasElement A this a s")
  have "clock (snd (hasElement A this a s)) = clock s"
    using Cons.prems unfolding hasElement_snd by (simp add: queriesTakeNoTime_def)
  then have "clock s1 = clock s" using h by simp
  moreover have "clock (snd (eachLoaded A this names (b \<and> p) s1)) = clock s1"
    by (rule Cons.IH[OF Cons.prems])
  moreover have "clock (snd (eachLoaded A this names b s)) = clock s"
    by (rule Cons.IH[OF Cons.prems])
  ultimately show ?case using h by auto
qed

lemma allLoadedFn_never:
  "name \<in> set names \<Longrightarrow> neverPresent A this name \<Longrightarrow> neverTruthy (allLoadedFn A this names)"
  by (simp add: neverTruthy_def allLoadedFn_fst eachLoaded_missing)

lemma allLoadedFn_clock: "queriesNotBack A \<Longrightarrow> clockNotBack (allLoadedFn A this names)"
  by (simp add: clockNotBack_def allLoadedFn_snd eachLoaded_clock)

lemma allLoadedFn_noTime: "queriesTakeNoTime A \<Longrightarrow> takesNoTime (allLoadedFn A this names)"
  by (simp add: takesNoTime_def allLoadedFn_snd eachLoaded_noTime)


text \<open>
  Claim C1, as the code has it. Let the predicate never return a truthy value, let no
  evaluation move the clock backwards, and let every sleep advance the clock by at least
  the poll interval, which is positive. Then \<open>waitUntil\<close> ends, by throwing the error
  whose message ends with the description; the clock then shows at least \<open>timeOut\<close>
  milliseconds more than at entry; and the log is the evaluation before the loop, then
  rounds of a failed evaluation followed by a sleep, then a last failed evaluation, after
  which the elapsed time was checked and no sleep was made. When moreover evaluations
  take no time on the clock, a sleep lasts exactly the poll interval and \<open>timeOut\<close> is
  positive, the elapsed time is below \<open>timeOut\<close> plus one poll interval. The same holds
  of \<open>waitForElements\<close> over names one of which is never present. \<open>timeOut\<close> and the
  poll interval are the effective ones: 10000 and 500 stand in for an omitted or zero
  argument.
\<close>

theorem waitUntil_times_out:
  "(neverTruthy fn \<and> clockNotBack fn \<and> sleepsAtLeast A (orDefault waitInMs 500) \<and>
      0 < orDefault waitInMs 500
    \<longrightarrow> (\<exists>n s'. waitUntil A fn description timeOut waitInMs s =
                  Some (Threw (Error (timedOutMessage description)),
                        timedOutLog (orDefault waitInMs 500) n, s')
              \<and> orDefault timeOut 10000 \<le> clock s' - clock s
              \<and> (takesNoTime fn \<and> sleepsExactly A (orDefault waitInMs 500) \<and>
                   0 < orDefault timeOut 10000
                 \<longrightarrow> clock s' - clock s < orDefault timeOut 10000 + orDefault waitInMs 500)))
   \<and>
   (name \<in> set names \<and> neverPresent A this name \<and> queriesNotBack A \<and>
      sleepsAtLeast A (orDefault waitInMs 500) \<and> 0 < orDefault waitInMs 500
    \<longrightarrow> (\<exists>n s'. waitForElements A this names timeOut waitInMs s =
                  Some (Threw (Error (timedOutMessage
                          (''Waited for selectors '' @ [CHR 0x27] @ join '', '' names @ [CHR 0x27]))),
                        timedOutLog (orDefault waitInMs 500) n, s')
              \<and> orDefault timeOut 10000 \<le> clock s' - clock s
              \<and> (queriesTakeNoTime A \<and> sleepsExactly A (orDefault waitInMs 500) \<and>
                   0 < orDefault timeOut 10000
                 \<longrightarrow> clock s' - clock s < orDefault timeOut 10000 + orDefault waitInMs 500)))"
proof (intro conjI impI)
  assume "neverTruthy fn \<and> clockNotBack fn \<and> sleepsAtLeast A (orDefault waitInMs 500) \<and>
      0 < orDefault waitInMs 500"
  then show "\<exists>n s'. waitUntil A fn description timeOut waitInMs s =
                  Some (Threw (Error (timedOutMessage description)),
                        timedOutLog (orDefault waitInMs 500) n, s')
              \<and> orDefault timeOut 10000 \<le> clock s' - clock s
              \<and> (takesNoTime fn \<and> sleepsExactly A (orDefault waitInMs 500) \<and>
                   0 < orDefault timeOut 10000
                 \<longrightarrow> clock s' - clock s < orDefault timeOut 10000 + orDefault waitInMs 500)"
    using waitUntil_never[of fn A waitInMs description timeOut s] by blast
next
  assume a: "name \<in> set names \<and> neverPresent A this name \<and> queriesNotBack A \<and>
      sleepsAtLeast A (orDefault waitInMs 500) \<and> 0 < orDefault waitInMs 500"
  let ?fn = "allLoadedFn A this names"
  let ?d = "''Waited for selectors '' @ [CHR 0x27] @ join '', '' names @ [CHR 0x27]"
  have never: "neverTruthy ?fn" using a allLoadedFn_never by blast
  have mono: "clockNotBack ?fn" using a allLoadedFn_clock by blast
  have prog: "sleepsAtLeast A (orDefault waitInMs 500)" and w: "0 < orDefault waitInMs 500"
    using a by simp_all
  from waitUntil_never[OF never mono prog w, of ?d timeOut s]
  obtain n s' where run: "waitUntil A ?fn ?d timeOut waitInMs s =
           Some (Threw (Error (timedOutMessage ?d)), timedOutLog (orDefault waitInMs 500) n, s')"
     and bd: "orDefault timeOut 10000 \<le> clock s' - clock s"
     and ex: "takesNoTime ?fn \<and> sleepsExactly A (orDefault waitInMs 500) \<and> 0 < orDefault timeOut 10000
                \<longrightarrow> clock s' - clock s < orDefault timeOut 10000 + orDefault waitInMs 500"
    by blast
  have "queriesTakeNoTime A \<and> sleepsExactly A (orDefault waitInMs 500) \<and> 0 < orDefault timeOut 10000
          \<longrightarrow> clock s' - clock s < orDefault timeOut 10000 + orDefault waitInMs 500"
    using ex allLoadedFn_noTime[of A this names] by blast
  with run bd show "\<exists>n s'. waitForElements A this names timeOut waitInMs s =
                  Some (Threw (Error (timedOutMessage ?d)), timedOutLog (orDefault waitInMs 500) n, s')
              \<and> orDefault timeOut 10000 \<le> clock s' - clock s
              \<and> (queriesTakeNoTime A \<and> sleepsExactly A (orDefault waitInMs 500) \<and>
                   0 < orDefault timeOut 10000
                 \<longrightarrow> clock s' - clock s < orDefault timeOut 10000 + orDefault waitInMs 500)"
    unfolding waitForElements_def by blast
qed

text \<open>
  Without the proviso on the time an evaluation takes, the upper bound of claim C1 fails:
  with element queries of 300 ms, a timeout of 200 ms and a poll interval of 50 ms the
  wait throws after 600 ms.
\<close>

theorem waitForElements_slow_counterexample:
  "waitForElements (driver slowQuery) page [''body''] (Some 200) (Some 50) \<lparr>clock = 0\<rparr> =
     Some (Threw (Error (timedOutMessage (''Waited for selectors '' @ [CHR 0x27] @ ''body'' @ [CHR 0x27]))),
           [Evaluated (Plain False), Evaluated (Plain False)], \<lparr>clock = 600\<rparr>)
   \<and> \<not> (clock \<lparr>clock = 600\<rparr> - clock \<lparr>clock = 0\<rparr> < (200::int) + 50)"
  by (simp add: waitForElements_def waitUntil_def pollLoop.simps allLoadedFn_def hasElement_def
      driver_def slowQuery_def)


text \<open>The scenario of the spec: the body is absent for ever, 200 ms, 50 ms.\<close>

lemma sample_env:
  "neverTruthy alwaysFalse" "clockNotBack alwaysFalse" "takesNoTime alwaysFalse"
  "sleepsAtLeast (driver headerOnly) 50" "sleepsExactly (driver headerOnly) 50"
  "neverPresent (driver headerOnly) page ''body''"
  "queriesNotBack (driver headerOnly)" "queriesTakeNoTime (driver headerOnly)"
  by (simp_all add: neverTruthy_def clockNotBack_def takesNoTime_def sleepsAtLeast_def
      sleepsExactly_def neverPresent_def queriesNotBack_def queriesTakeNoTime_def
      alwaysFalse_def driver_def headerOnly_def page_def getSelector_def getSelectors_def
      getContext_def objectLiteral_def)

theorem waitUntil_times_out_witness:
  "(\<exists>n s'. waitUntil (driver headerOnly) alwaysFalse ''ready'' (Some 200) (Some 50) \<lparr>clock = 0\<rparr> =
             Some (Threw (Error (timedOutMessage ''ready'')), timedOutLog 50 n, s')
           \<and> 200 \<le> clock s' \<and> clock s' < 250)
   \<and>
   (\<exists>n s'. waitForElements (driver headerOnly) page [''header'', ''body''] (Some 200) (Some 50)
              \<lparr>clock = 0\<rparr> =
             Some (Threw (Error (timedOutMessage
                     (''Waited for selectors '' @ [CHR 0x27] @ ''header, body'' @ [CHR 0x27]))),
                   timedOutLog 50 n, s')
           \<and> 200 \<le> clock s' \<and> clock s' < 250)"
  using waitUntil_times_out[where fn = alwaysFalse and A = "driver headerOnly"
      and waitInMs = "Some 50" and timeOut = "Some 200" and description = "''ready''"
      and s = "\<lparr>clock = 0\<rparr>" and name = "''body''" and names = "[''header'', ''body'']"
      and this = page]
  by (simp add: sample_env)

subsection \<open>A wait on a predicate that is truthy at once\<close>

lemma sleepsOnlyAfterFalsy_snoc_eval:
  "sleepsOnlyAfterFalsy (evs @ [Evaluated r]) = sleepsOnlyAfterFalsy evs"
  by (induction evs rule: sleepsOnlyAfterFalsy.induct) auto

lemma sleepsOnlyAfterFalsy_snoc_round:
  "sleepsOnlyAfterFalsy (evs @ [Evaluated r, Slept w]) = (sleepsOnlyAfterFalsy evs \<and> \<not> truthy r)"
  by (induction evs rule: sleepsOnlyAfterFalsy.induct) auto

lemma pollLoop_log:
  assumes "pollLoop A fn msg st T w evs s = Some res"
  shows "sleepsOnlyAfterFalsy evs \<longrightarrow> sleepsOnlyAfterFalsy (fst (snd res))"
  by (rule pollLoop.raw_induct[where P =
        "\<lambda>A fn msg st T w evs s res. sleepsOnlyAfterFalsy evs \<longrightarrow> sleepsOnlyAfterFalsy (fst (snd res))",
        OF _ assms])
     (auto split: prod.splits if_splits
        simp: sleepsOnlyAfterFalsy_snoc_eval sleepsOnlyAfterFalsy_snoc_round)

lemma hasElement_fst:
  "fst (hasElement A this a s) =
     (fst (getElements A (getContext this) (getSelector this a) ''css selector'' s) \<noteq> [])"
  by (simp add: hasElement_def split: prod.splits)

lemma eachLoaded_all:
  "\<forall>name\<in>set names. alwaysPresent A this name \<Longrightarrow> fst (eachLoaded A this names True s) = True"
proof (induction names arbitrary: s)
  case Nil
  then show ?case by simp
next
  case (Cons a names)
  obtain p s1 where h: "hasElement A this a s = (p, s1)" by (cases "hasElement A this a s")
  have "alwaysPresent A this a" using Cons.prems by simp
  then have "fst (hasElement A this a s)"
    by (simp add: alwaysPresent_def hasElement_fst)
  then have p using h by simp
  moreover have "fst (eachLoaded A this names True s1) = True"
    using Cons.IH Cons.prems by simp
  ultimately show ?case using h by simp
qed


text \<open>
  What the code does for a predicate that is truthy at once. \<open>waitUntil\<close> evaluates
  the predicate on entry, and when the result is not a thenable it evaluates it again as
  the condition of the loop. When both evaluations return a truthy value, \<open>waitUntil\<close>
  returns without a call of the adapter's sleep. So \<open>waitForElements\<close> returns
  without sleeping when every name is present whenever it is queried. And in every wait
  that ends, each sleep comes directly after an evaluation that was not truthy.
\<close>

theorem waitUntil_returns_without_sleep:
  "(fn s = (ra, sa) \<and> truthy ra \<and> \<not> isThenable ra \<and> fn sa = (rb, sb) \<and> truthy rb
    \<longrightarrow> waitUntil A fn description timeOut waitInMs s =
          Some (Returned, [Evaluated ra, Evaluated rb], sb))
   \<and>
   ((\<forall>name\<in>set names. alwaysPresent A this name)
    \<longrightarrow> (\<exists>s'. waitForElements A this names timeOut waitInMs s =
               Some (Returned, [Evaluated (Plain True), Evaluated (Plain True)], s')))
   \<and>
   (waitUntil A fn description timeOut waitInMs s = Some (out, evs, s')
    \<longrightarrow> sleepsOnlyAfterFalsy evs)"
proof (intro conjI impI)
  assume "fn s = (ra, sa) \<and> truthy ra \<and> \<not> isThenable ra \<and> fn sa = (rb, sb) \<and> truthy rb"
  then show "waitUntil A fn description timeOut waitInMs s =
          Some (Returned, [Evaluated ra, Evaluated rb], sb)"
    by (simp add: waitUntil_def pollLoop.simps)
next
  assume a: "\<forall>name\<in>set names. alwaysPresent A this name"
  let ?fn = "allLoadedFn A this names"
  obtain s1 where 1: "?fn s = (Plain True, s1)"
    using eachLoaded_all[OF a, of s] by (cases "?fn s") (simp add: allLoadedFn_def split: prod.splits)
  obtain s2 where 2: "?fn s1 = (Plain True, s2)"
    using eachLoaded_all[OF a, of s1] by (cases "?fn s1") (simp add: allLoadedFn_def split: prod.splits)
  have "waitForElements A this names timeOut waitInMs s =
          Some (Returned, [Evaluated (Plain True), Evaluated (Plain True)], s2)"
    using 1 2 by (simp add: waitForElements_def waitUntil_def pollLoop.simps)
  then show "\<exists>s'. waitForElements A this names timeOut waitInMs s =
               Some (Returned, [Evaluated (Plain True), Evaluated (Plain True)], s')"
    by blast
next
  assume run: "waitUntil A fn description timeOut waitInMs s = Some (out, evs, s')"
  obtain r s1 where fs: "fn s = (r, s1)" by (cases "fn s")
  show "sleepsOnlyAfterFalsy evs"
  proof (cases "truthy r \<and> isThenable r")
    case True
    then have "evs = [Evaluated r]" using run fs by (simp add: waitUntil_def)
    then show ?thesis by simp
  next
    case False
    then have "pollLoop A fn description (clock s) (orDefault timeOut 10000)
                 (orDefault waitInMs 500) [Evaluated r] s1 = Some (out, evs, s')"
      using run fs by (auto simp: waitUntil_def)
    from pollLoop_log[OF this] show ?thesis by simp
  qed
qed


theorem waitUntil_returns_without_sleep_example:
  "waitUntil (driver allThere) (allLoadedFn (driver allThere) page [''header'', ''body''])
       ''ready'' None None \<lparr>clock = 0\<rparr> =
     Some (Returned, [Evaluated (Plain True), Evaluated (Plain True)], \<lparr>clock = 0\<rparr>)
   \<and> (\<exists>s'. waitForElements (driver allThere) page [''header'', ''body''] None None \<lparr>clock = 0\<rparr> =
          Some (Returned, [Evaluated (Plain True), Evaluated (Plain True)], s'))
   \<and> sleepsOnlyAfterFalsy [Evaluated (Plain True), Evaluated (Plain True)]"
proof -
  let ?fn = "allLoadedFn (driver allThere) page [''header'', ''body'']"
  have fn: "?fn \<lparr>clock = 0\<rparr> = (Plain True, \<lparr>clock = 0\<rparr>)"
    by (simp add: allLoadedFn_def hasElement_def driver_def allThere_def)
  have pres: "\<forall>name\<in>set [''header'', ''body'']. alwaysPresent (driver allThere) page name"
    by (simp add: alwaysPresent_def driver_def allThere_def)
  note inst = waitUntil_returns_without_sleep[where fn = ?fn and A = "driver allThere"
      and s = "\<lparr>clock = 0\<rparr>" and ra = "Plain True" and sa = "\<lparr>clock = 0\<rparr>"
      and rb = "Plain True" and sb = "\<lparr>clock = 0\<rparr>" and description = "''ready''"
      and timeOut = None and waitInMs = None and names = "[''header'', ''body'']" and this = page
      and out = Returned and evs = "[Evaluated (Plain True), Evaluated (Plain True)]"
      and s' = "\<lparr>clock = 0\<rparr>"]
  have 1: "waitUntil (driver allThere) ?fn ''ready'' None None \<lparr>clock = 0\<rparr> =
     Some (Returned, [Evaluated (Plain True), Evaluated (Plain True)], \<lparr>clock = 0\<rparr>)"
    using inst fn by simp
  show ?thesis using inst fn pres 1 by simp
qed

text \<open>
  Claim C2 asks \<open>waitUntil\<close> to evaluate the predicate once on entry and to return
  at once, without a sleep, when that evaluation is truthy. The code at an input where it
  matters: the predicate is truthy when first evaluated and not truthy afterwards. The
  result of the evaluation before the loop is looked at for a \<open>then\<close> property and
  dropped, the loop evaluates again, sleeps twice and throws the time-out error. The same
  for \<open>waitForElements\<close> on a page whose element is there at the first pass and gone
  at the second.
\<close>

theorem waitUntil_discards_first_result:
  "fst (trueOnce \<lparr>clock = 0\<rparr>) = Plain True
   \<and> waitUntil (driver allThere) trueOnce ''ready'' (Some 60) (Some 50) \<lparr>clock = 0\<rparr> =
       Some (Threw (Error (timedOutMessage ''ready'')),
             [Evaluated (Plain True), Evaluated (Plain False), Slept 50,
              Evaluated (Plain False), Slept 50, Evaluated (Plain False)],
             \<lparr>clock = 104\<rparr>)
   \<and> fst (allLoadedFn (driver vanishing) page [''header''] \<lparr>clock = 0\<rparr>) = Plain True
   \<and> waitForElements (driver vanishing) page [''header''] (Some 60) (Some 50) \<lparr>clock = 0\<rparr> =
       Some (Threw (Error (timedOutMessage
               (''Waited for selectors '' @ [CHR 0x27] @ ''header'' @ [CHR 0x27]))),
             [Evaluated (Plain True), Evaluated (Plain False), Slept 50,
              Evaluated (Plain False), Slept 50, Evaluated (Plain False)],
             \<lparr>clock = 104\<rparr>)"
  by (simp add: waitForElements_def waitUntil_def pollLoop.simps allLoadedFn_def hasElement_def
      driver_def vanishing_def trueOnce_def)

subsection \<open>A predicate that returns a promise\<close>

text \<open>
  Claim C6 asks \<open>waitUntil\<close> to pause until a thenable returned by the first
  evaluation settles and to take the settled value as the result. The code at that input:
  the predicate returns a promise that settles with \<open>false\<close>, and \<open>waitUntil\<close>
  returns at once as if the wait had succeeded, after one evaluation and no sleep.
\<close>

theorem waitUntil_ignores_promise:
  "waitUntil (driver allThere) promisesFalse ''ready'' (Some 200) (Some 50) \<lparr>clock = 0\<rparr> =
     Some (Returned, [Evaluated (Thenable False)], \<lparr>clock = 0\<rparr>)"
  by (simp add: waitUntil_def promisesFalse_def)

subsection \<open>Registering a load selector\<close>

text \<open>
  The table of the sample page has its two own names and, as an object literal, the
  inherited members: \<open>hasSelector\<close> is true of \<open>toString\<close>, which is no selector.
\<close>

lemma hasSelector_page:
  "hasSelector page ''header''" "hasSelector page ''body''" "hasSelector page ''toString''"
  "getSelector page ''toString'' = Some Inherited"
  by (simp_all add: hasSelector_def getSelector_def getSelectors_def page_def objectLiteral_def
      prototypeNames_def)

text \<open>
  Claim C3 asks \<open>addLoadSelector\<close> to throw for a name that the selector table does
  not have. The code at that input: \<open>footer\<close> is not in the table of the sample page,
  and \<open>addLoadSelector\<close> appends it to the load-selector list and returns.
\<close>

theorem addLoadSelector_unknown_name:
  "hasSelector page ''footer'' = False
   \<and> addLoadSelector ''footer'' page =
       Inr (page\<lparr>loadSelectors := [''header'', ''body'', ''footer'']\<rparr>)"
  by (simp add: hasSelector_def getSelectors_def addLoadSelector_def hasSelector_property_def
      page_def objectLiteral_def prototypeNames_def)

subsection \<open>Black-outs on the pixel model\<close>

text \<open>A pixel is black after the fills when some rectangle of the list holds it.\<close>

lemma fillBlackOuts_px:
  "fillBlackOuts (pixelCodec ld wr) bl img p =
     (case img p of
        None \<Rightarrow> None
      | Some old \<Rightarrow>
          if \<exists>b\<in>set bl. inRect (rect_x b) (rect_y b) (rect_width b) (rect_height b) p
          then Some opaqueBlack else Some old)"
proof (induction bl arbitrary: img)
  case Nil
  then show ?case by (simp split: option.splits)
next
  case (Cons b bl)
  show ?case
    by (simp add: Cons.IH) (auto simp: pixelCodec_def px_fillRect_def split: option.splits)
qed

lemma fillBlackOuts_set:
  assumes "set bl = set bl'"
  shows "fillBlackOuts (pixelCodec ld wr) bl img = fillBlackOuts (pixelCodec ld wr) bl' img"
  by (rule ext) (simp only: fillBlackOuts_px assms)

text \<open>
  Claim C8. For every list of black-out rectangles and every permutation of it, the
  fills in list order give the same pixels, and so does the whole composition, clip
  included: every fill writes the same opaque black, so a later fill over an earlier one
  changes nothing. On the pixel model of \<open>fillRect\<close> and \<open>clip\<close>.
\<close>

theorem blackOut_order_irrelevant:
  "mset bl = mset bl' \<Longrightarrow>
     redactAndClip (pixelCodec ld wr) bl f img = redactAndClip (pixelCodec ld wr) bl' f img"
proof -
  assume "mset bl = mset bl'"
  then have "set bl = set bl'" by (rule mset_eq_setD)
  then show ?thesis by (simp add: redactAndClip_def fillBlackOuts_set[of bl bl'])
qed


theorem blackOut_order_irrelevant_witness:
  "redactAndClip sampleCodec [cornerRect, innerRect] sampleFrame whiteSquare =
     redactAndClip sampleCodec [innerRect, cornerRect] sampleFrame whiteSquare"
proof -
  have "mset [cornerRect, innerRect] = mset [innerRect, cornerRect]" by simp
  from blackOut_order_irrelevant[OF this, of sampleLoad sampleWrite sampleFrame whiteSquare]
  show ?thesis by (simp add: sampleCodec_def)
qed

lemma clip_px [simp]: "clip (pixelCodec ld wr) = px_clip"
  by (simp add: pixelCodec_def)

lemma outside_not_in_frame:
  assumes "outsideOf b f" and "inRect 0 0 (rect_width f) (rect_height f) p"
  shows "\<not> inRect (rect_x b) (rect_y b) (rect_width b) (rect_height b)
           (rect_x f + fst p, rect_y f + snd p)"
  using assms by (auto simp: outsideOf_def inRect_def)

lemma outside_invisible:
  assumes "outsideOf b f"
  shows "px_clip (rect_x f) (rect_y f) (rect_width f) (rect_height f)
           (fillBlackOuts (pixelCodec ld wr) (before @ b # after) img) =
         px_clip (rect_x f) (rect_y f) (rect_width f) (rect_height f)
           (fillBlackOuts (pixelCodec ld wr) (before @ after) img)"
proof (rule ext)
  fix p
  show "px_clip (rect_x f) (rect_y f) (rect_width f) (rect_height f)
           (fillBlackOuts (pixelCodec ld wr) (before @ b # after) img) p =
         px_clip (rect_x f) (rect_y f) (rect_width f) (rect_height f)
           (fillBlackOuts (pixelCodec ld wr) (before @ after) img) p"
  proof (cases "inRect 0 0 (rect_width f) (rect_height f) p")
    case False
    then show ?thesis by (simp add: px_clip_def)
  next
    case True
    from outside_not_in_frame[OF assms True] show ?thesis
      using True by (auto simp: px_clip_def fillBlackOuts_px split: option.splits)
  qed
qed

lemma inside_black:
  assumes "insideOf b f" and "b \<in> set bl"
      and "inRect (rect_x b) (rect_y b) (rect_width b) (rect_height b) p"
      and "img p \<noteq> None"
  shows "px_clip (rect_x f) (rect_y f) (rect_width f) (rect_height f)
           (fillBlackOuts (pixelCodec ld wr) bl img) (fst p - rect_x f, snd p - rect_y f) =
         Some opaqueBlack"
proof -
  have "inRect 0 0 (rect_width f) (rect_height f) (fst p - rect_x f, snd p - rect_y f)"
    using assms(1,3) by (auto simp: insideOf_def inRect_def)
  moreover have "\<exists>c\<in>set bl. inRect (rect_x c) (rect_y c) (rect_width c) (rect_height c) p"
    using assms(2,3) by blast
  ultimately show ?thesis
    using assms(4) by (auto simp: px_clip_def fillBlackOuts_px split: option.splits)
qed

text \<open>
  The composition is what \<open>capture\<close> writes. When the black-out entries resolve to
  \<open>bl\<close>, the capture sees the frame \<open>f\<close> and the library decodes the screenshot and
  calls back later, \<open>capture\<close> returns normally and the image it hands to
  \<open>writeImage\<close> is the decoded one after the fills of \<open>bl\<close> and the clip to \<open>f\<close>.
\<close>

lemma capture_writes:
  assumes sh: "shoots A st this wait s f buffer"
      and ld: "loadImage C buffer = (Deferred, Inr decoded)"
      and bl: "resolveAll (blackOut this @ extras) = Inr bl"
  shows "writtenImage (capture A C U st this title ident wait (Some extras) s) =
           Some (redactAndClip C bl f decoded)"
proof -
  obtain dir where dir: "getScreenshotPath st = Some dir"
    using sh by (auto simp: shoots_def)
  obtain sa where fr: "getFrame A this None (sleep A (orDefault wait 1000) s) = (f, sa)"
    using sh by (auto simp: shoots_def split: prod.splits)
  obtain sb where shot: "takeScreenshot A sa = (buffer, sb)"
    using sh fr by (cases "takeScreenshot A sa") (auto simp: shoots_def)
  show ?thesis
    using bl by (simp add: capture_def writtenImage_def Let_def fr shot dir capturePromise_def ld
        split: option.splits prod.splits)
qed

text \<open>
  Claim C5. In \<open>capture\<close>, the image written is the decoded screenshot after all the
  fills of the black-out list, clipped to the frame exactly when the frame has a width
  and a height other than zero. On the pixel model of \<open>fillRect\<close> and \<open>clip\<close>, with
  such a frame: a capture whose black-out list has a rectangle beside the frame writes
  the same image as the capture without that rectangle; and when a rectangle of the list
  lies inside the frame, every pixel of the screenshot in that rectangle is opaque black
  in the image written, at its place relative to the frame's corner.
\<close>

theorem capture_blackOut_then_clip:
  "(shoots A st this wait s f buffer \<and> loadImage C buffer = (Deferred, Inr decoded) \<and>
      resolveAll (blackOut this @ extras) = Inr bl
    \<longrightarrow> writtenImage (capture A C U st this title ident wait (Some extras) s) =
          Some (if rect_width f \<noteq> 0 \<and> rect_height f \<noteq> 0
                then clip C (rect_x f) (rect_y f) (rect_width f) (rect_height f)
                       (fillBlackOuts C bl decoded)
                else fillBlackOuts C bl decoded))
   \<and>
   (shoots A st this wait s f buffer \<and> ld buffer = (Deferred, Inr pic) \<and>
      rect_width f \<noteq> 0 \<and> rect_height f \<noteq> 0 \<and> outsideOf b f \<and>
      resolveAll (blackOut this @ withIt) = Inr (before @ b # after) \<and>
      resolveAll (blackOut this @ without) = Inr (before @ after)
    \<longrightarrow> writtenImage (capture A (pixelCodec ld wr) U st this title ident wait (Some withIt) s) =
          writtenImage (capture A (pixelCodec ld wr) U st this title ident wait (Some without) s)
        \<and> writtenImage (capture A (pixelCodec ld wr) U st this title ident wait (Some withIt) s)
            \<noteq> None)
   \<and>
   (shoots A st this wait s f buffer \<and> ld buffer = (Deferred, Inr pic) \<and>
      rect_width f \<noteq> 0 \<and> rect_height f \<noteq> 0 \<and> insideOf b f \<and>
      resolveAll (blackOut this @ entries) = Inr rs \<and> b \<in> set rs \<and>
      inRect (rect_x b) (rect_y b) (rect_width b) (rect_height b) p \<and> pic p \<noteq> None
    \<longrightarrow> (\<exists>out. writtenImage (capture A (pixelCodec ld wr) U st this title ident wait
                        (Some entries) s) = Some out
               \<and> out (fst p - rect_x f, snd p - rect_y f) = Some opaqueBlack))"
proof (intro conjI impI)
  assume "shoots A st this wait s f buffer \<and> loadImage C buffer = (Deferred, Inr decoded) \<and>
      resolveAll (blackOut this @ extras) = Inr bl"
  then have "writtenImage (capture A C U st this title ident wait (Some extras) s) =
               Some (redactAndClip C bl f decoded)"
    by (intro capture_writes[where f = f and buffer = buffer]) simp_all
  then show "writtenImage (capture A C U st this title ident wait (Some extras) s) =
          Some (if rect_width f \<noteq> 0 \<and> rect_height f \<noteq> 0
                then clip C (rect_x f) (rect_y f) (rect_width f) (rect_height f)
                       (fillBlackOuts C bl decoded)
                else fillBlackOuts C bl decoded)"
    by (simp add: redactAndClip_def)
next
  assume a: "shoots A st this wait s f buffer \<and> ld buffer = (Deferred, Inr pic) \<and>
      rect_width f \<noteq> 0 \<and> rect_height f \<noteq> 0 \<and> outsideOf b f \<and>
      resolveAll (blackOut this @ withIt) = Inr (before @ b # after) \<and>
      resolveAll (blackOut this @ without) = Inr (before @ after)"
  let ?C = "pixelCodec ld wr"
  have load: "loadImage ?C buffer = (Deferred, Inr pic)"
    using a by (simp add: pixelCodec_def)
  have w1: "writtenImage (capture A ?C U st this title ident wait (Some withIt) s) =
              Some (redactAndClip ?C (before @ b # after) f pic)"
    using a load by (intro capture_writes[where f = f and buffer = buffer]) simp_all
  have w2: "writtenImage (capture A ?C U st this title ident wait (Some without) s) =
              Some (redactAndClip ?C (before @ after) f pic)"
    using a load by (intro capture_writes[where f = f and buffer = buffer]) simp_all
  have "redactAndClip ?C (before @ b # after) f pic = redactAndClip ?C (before @ after) f pic"
    using a by (simp add: redactAndClip_def outside_invisible)
  with w1 w2
  show "writtenImage (capture A ?C U st this title ident wait (Some withIt) s) =
          writtenImage (capture A ?C U st this title ident wait (Some without) s)"
    by simp
  from w1
  show "writtenImage (capture A ?C U st this title ident wait (Some withIt) s) \<noteq> None"
    by simp
next
  assume a: "shoots A st this wait s f buffer \<and> ld buffer = (Deferred, Inr pic) \<and>
      rect_width f \<noteq> 0 \<and> rect_height f \<noteq> 0 \<and> insideOf b f \<and>
      resolveAll (blackOut this @ entries) = Inr rs \<and> b \<in> set rs \<and>
      inRect (rect_x b) (rect_y b) (rect_width b) (rect_height b) p \<and> pic p \<noteq> None"
  let ?C = "pixelCodec ld wr"
  have load: "loadImage ?C buffer = (Deferred, Inr pic)"
    using a by (simp add: pixelCodec_def)
  have w: "writtenImage (capture A ?C U st this title ident wait (Some entries) s) =
              Some (redactAndClip ?C rs f pic)"
    using a load by (intro capture_writes[where f = f and buffer = buffer]) simp_all
  have "redactAndClip ?C rs f pic (fst p - rect_x f, snd p - rect_y f) = Some opaqueBlack"
    using a inside_black[of b f rs p pic ld wr] by (simp add: redactAndClip_def)
  with w
  show "\<exists>out. writtenImage (capture A ?C U st this title ident wait (Some entries) s) = Some out
               \<and> out (fst p - rect_x f, snd p - rect_y f) = Some opaqueBlack"
    by blast
qed

text \<open>
  The framed sample page, the white square as the screenshot, the frame of two by two
  pixels at (1, 1): a black-out of the corner pixel (0, 0) leaves the output as it is
  without it, and a black-out of the pixel (2, 2) is black at (1, 1) of the output.
\<close>

theorem capture_blackOut_then_clip_witness:
  "writtenImage (capture (driver allThere) sampleCodec sampleExternals sampleStatics framedPage
       ''Login Test'' None None (Some [Coordinates cornerRect]) \<lparr>clock = 0\<rparr>) =
     Some (px_clip 1 1 2 2 (fillBlackOuts sampleCodec [cornerRect] whiteSquare))
   \<and> writtenImage (capture (driver allThere) sampleCodec sampleExternals sampleStatics framedPage
         ''Login Test'' None None (Some [Coordinates cornerRect]) \<lparr>clock = 0\<rparr>) =
       writtenImage (capture (driver allThere) sampleCodec sampleExternals sampleStatics framedPage
         ''Login Test'' None None (Some []) \<lparr>clock = 0\<rparr>)
   \<and> (\<exists>out. writtenImage (capture (driver allThere) sampleCodec sampleExternals sampleStatics
                 framedPage ''Login Test'' None None
                 (Some [Coordinates cornerRect, Coordinates innerRect]) \<lparr>clock = 0\<rparr>) = Some out
            \<and> out (1, 1) = Some opaqueBlack)"
proof -
  have sh: "shoots (driver allThere) sampleStatics framedPage None \<lparr>clock = 0\<rparr> sampleFrame 0"
    by (simp add: shoots_def sampleStatics_def getScreenshotPath_def orElse_def getFrame_def
        getContext_def framedPage_def page_def driver_def)
  have ld: "loadImage sampleCodec 0 = (Deferred, Inr whiteSquare)"
    "sampleLoad 0 = (Deferred, Inr whiteSquare)"
    by (simp_all add: sampleCodec_def pixelCodec_def sampleLoad_def)
  have res: "resolveAll (blackOut framedPage @ [Coordinates cornerRect]) = Inr [cornerRect]"
    "resolveAll (blackOut framedPage @ [Coordinates cornerRect]) = Inr ([] @ cornerRect # [])"
    "resolveAll (blackOut framedPage @ []) = Inr ([] @ [])"
    "resolveAll (blackOut framedPage @ [Coordinates cornerRect, Coordinates innerRect]) =
       Inr [cornerRect, innerRect]"
    by (simp_all add: blackOut_def)
  have h: "rect_width sampleFrame \<noteq> 0" "rect_height sampleFrame \<noteq> 0"
    "outsideOf cornerRect sampleFrame" "insideOf innerRect sampleFrame"
    "innerRect \<in> set [cornerRect, innerRect]"
    "inRect (rect_x innerRect) (rect_y innerRect) (rect_width innerRect) (rect_height innerRect) (2, 2)"
    "whiteSquare (2, 2) \<noteq> None"
    by (simp_all add: sampleFrame_def cornerRect_def innerRect_def outsideOf_def insideOf_def
        inRect_def whiteSquare_def)
  have fr: "rect_x sampleFrame = 1" "rect_y sampleFrame = 1" "rect_width sampleFrame = 2"
    "rect_height sampleFrame = 2" "clip sampleCodec = px_clip"
    by (simp_all add: sampleFrame_def sampleCodec_def)
  have 1: "writtenImage (capture (driver allThere) sampleCodec sampleExternals sampleStatics framedPage
       ''Login Test'' None None (Some [Coordinates cornerRect]) \<lparr>clock = 0\<rparr>) =
     Some (px_clip 1 1 2 2 (fillBlackOuts sampleCodec [cornerRect] whiteSquare))"
    using capture_blackOut_then_clip[where A = "driver allThere" and st = sampleStatics
        and this = framedPage and wait = None and s = "\<lparr>clock = 0\<rparr>" and f = sampleFrame
        and buffer = 0 and C = sampleCodec and decoded = whiteSquare
        and extras = "[Coordinates cornerRect]" and bl = "[cornerRect]" and U = sampleExternals
        and title = "''Login Test''" and ident = None, THEN conjunct1] sh ld(1) res(1) fr
    by simp
  have 2: "writtenImage (capture (driver allThere) (pixelCodec sampleLoad sampleWrite) sampleExternals
         sampleStatics framedPage ''Login Test'' None None (Some [Coordinates cornerRect])
         \<lparr>clock = 0\<rparr>) =
       writtenImage (capture (driver allThere) (pixelCodec sampleLoad sampleWrite) sampleExternals
         sampleStatics framedPage ''Login Test'' None None (Some []) \<lparr>clock = 0\<rparr>)"
    using capture_blackOut_then_clip[where A = "driver allThere" and st = sampleStatics
        and this = framedPage and wait = None and s = "\<lparr>clock = 0\<rparr>" and f = sampleFrame
        and buffer = 0 and ld = sampleLoad and wr = sampleWrite and pic = whiteSquare
        and b = cornerRect and before = "[]" and after = "[]"
        and withIt = "[Coordinates cornerRect]" and without = "[]" and U = sampleExternals
        and title = "''Login Test''" and ident = None, THEN conjunct2, THEN conjunct1]
      sh ld(2) res(2,3) h(1,2,3)
    by blast
  have 3: "\<exists>out. writtenImage (capture (driver allThere) (pixelCodec sampleLoad sampleWrite)
                 sampleExternals sampleStatics framedPage ''Login Test'' None None
                 (Some [Coordinates cornerRect, Coordinates innerRect]) \<lparr>clock = 0\<rparr>) = Some out
            \<and> out (fst (2::int, 2::int) - rect_x sampleFrame, snd (2::int, 2::int) - rect_y sampleFrame)
                = Some opaqueBlack"
    using capture_blackOut_then_clip[where A = "driver allThere" and st = sampleStatics
        and this = framedPage and wait = None and s = "\<lparr>clock = 0\<rparr>" and f = sampleFrame
        and buffer = 0 and ld = sampleLoad and wr = sampleWrite and pic = whiteSquare
        and b = innerRect and rs = "[cornerRect, innerRect]"
        and entries = "[Coordinates cornerRect, Coordinates innerRect]" and p = "(2, 2)"
        and U = sampleExternals and title = "''Login Test''" and ident = None,
        THEN conjunct2, THEN conjunct2]
      sh ld(2) res(4) h(1,2,4,5,6,7)
    by blast
  show ?thesis
    using 1 2 3 by (simp add: sampleCodec_def fr(1,2))
qed

subsection \<open>Capture without black-outs and without a frame\<close>

text \<open>
  The composition is what \<open>capture\<close> writes: when the library decodes the buffer and
  calls back later, the image handed to \<open>writeImage\<close> is the decoded one after the
  fills and the clip.
\<close>

lemma capturePromise_written:
  "loadImage C buffer = (Deferred, Inr decoded) \<Longrightarrow>
     written (capturePromise C bl f buffer path this) = Some (redactAndClip C bl f decoded)"
  by (simp add: capturePromise_def Let_def split: prod.splits option.splits)

text \<open>
  Claim C7. With an empty black-out list and the all-zero frame the composition is the
  identity on the decoded image, whatever the library's \<open>fillRect\<close> and \<open>clip\<close> do:
  neither is called. So the image that \<open>capture\<close> hands to \<open>writeImage\<close> is the
  decoded screenshot itself.
\<close>

theorem capture_plain_is_identity:
  "redactAndClip C [] zeroRect decoded = decoded
   \<and> (loadImage C buffer = (Deferred, Inr decoded)
      \<longrightarrow> written (capturePromise C [] zeroRect buffer path this) = Some decoded)"
  by (simp add: redactAndClip_def zeroRect_def capturePromise_def split: prod.splits option.splits)

theorem capture_plain_is_identity_witness:
  "redactAndClip sampleCodec [] zeroRect whiteSquare = whiteSquare
   \<and> written (capturePromise sampleCodec [] zeroRect 0 ''shots/a_1.png'' page) = Some whiteSquare"
proof -
  have "loadImage sampleCodec 0 = (Deferred, Inr whiteSquare)"
    by (simp add: sampleCodec_def pixelCodec_def sampleLoad_def)
  with capture_plain_is_identity[of sampleCodec whiteSquare 0 "''shots/a_1.png''" page]
  show ?thesis by simp
qed

subsection \<open>Objects without a frame\<close>


lemma fillBlackOuts_clip_update:
  "fillBlackOuts (C\<lparr>clip := anyClip\<rparr>) bl img = fillBlackOuts C bl img"
  by (induction bl arbitrary: img) simp_all

lemma redactAndClip_zero:
  "redactAndClip C bl zeroRect img = fillBlackOuts C bl img"
  by (simp add: redactAndClip_def zeroRect_def)

lemma capturePromise_clip_update:
  "capturePromise (C\<lparr>clip := anyClip\<rparr>) bl zeroRect buffer path this =
     capturePromise C bl zeroRect buffer path this"
  by (simp add: capturePromise_def redactAndClip_zero fillBlackOuts_clip_update
      split: prod.splits timing.splits sum.splits option.splits)

text \<open>
  Claim C10. When the context has no \<open>getFrame\<close>, \<open>getFrame\<close> without a selector
  name (or with the empty name) returns the zero rectangle; when the element looked up
  for a name has none, \<open>getFrame\<close> of that name returns the zero rectangle. On an
  object whose context has no \<open>getFrame\<close>, \<open>capture\<close> never clips: the image it
  composes is the filled one, and what it returns does not depend on what the library's
  \<open>clip\<close> would do.
\<close>

theorem getFrame_without_capability:
  "(elemFrame (getContext this) = None
    \<longrightarrow> fst (getFrame A this None s) = zeroRect \<and> fst (getFrame A this (Some []) s) = zeroRect)
   \<and>
   (n \<noteq> [] \<and> elemFrame (fst (getElement_of A this n s)) = None
    \<longrightarrow> fst (getFrame A this (Some n) s) = zeroRect)
   \<and>
   (elemFrame (getContext this) = None
    \<longrightarrow> redactAndClip C bl (fst (getFrame A this None s)) img = fillBlackOuts C bl img
        \<and> capture A (C\<lparr>clip := anyClip\<rparr>) U st this title ident wait extra s =
          capture A C U st this title ident wait extra s)"
proof (intro conjI impI)
  assume a: "elemFrame (getContext this) = None"
  show "fst (getFrame A this None s) = zeroRect" using a by (simp add: getFrame_def)
  show "fst (getFrame A this (Some []) s) = zeroRect" using a by (simp add: getFrame_def)
  have g: "\<And>t. getFrame A this None t = (zeroRect, t)" using a by (simp add: getFrame_def)
  show "redactAndClip C bl (fst (getFrame A this None s)) img = fillBlackOuts C bl img"
    by (simp add: g redactAndClip_zero)
  show "capture A (C\<lparr>clip := anyClip\<rparr>) U st this title ident wait extra s =
          capture A C U st this title ident wait extra s"
    by (simp add: capture_def g capturePromise_clip_update Let_def
        split: sum.splits prod.splits option.splits)
next
  assume "n \<noteq> [] \<and> elemFrame (fst (getElement_of A this n s)) = None"
  then show "fst (getFrame A this (Some n) s) = zeroRect"
    by (cases "getElement_of A this n s") (simp add: getFrame_def)
qed

theorem getFrame_without_capability_witness:
  "fst (getFrame (driver allThere) page None \<lparr>clock = 0\<rparr>) = zeroRect
   \<and> fst (getFrame (driver allThere) page (Some ''header'') \<lparr>clock = 0\<rparr>) = zeroRect
   \<and> redactAndClip sampleCodec [cornerRect] (fst (getFrame (driver allThere) page None \<lparr>clock = 0\<rparr>))
        whiteSquare = fillBlackOuts sampleCodec [cornerRect] whiteSquare
   \<and> capture (driver allThere) (sampleCodec\<lparr>clip := (\<lambda>a b c d img. Map.empty)\<rparr>) sampleExternals
        sampleStatics page ''Login Test'' None None None \<lparr>clock = 0\<rparr> =
      capture (driver allThere) sampleCodec sampleExternals sampleStatics page ''Login Test''
        None None None \<lparr>clock = 0\<rparr>"
proof -
  have h: "elemFrame (getContext page) = None" "''header'' \<noteq> []"
    "elemFrame (fst (getElement_of (driver allThere) page ''header'' \<lparr>clock = 0\<rparr>)) = None"
    by (simp_all add: getContext_def page_def getElement_of_def driver_def)
  show ?thesis
    using h getFrame_without_capability[where this = page and A = "driver allThere"
        and s = "\<lparr>clock = 0\<rparr>" and n = "''header''" and C = sampleCodec and bl = "[cornerRect]"
        and img = whiteSquare and anyClip = "\<lambda>a b c d img. Map.empty" and U = sampleExternals
        and st = sampleStatics and title = "''Login Test''" and ident = None and wait = None
        and extra = None]
    by blast
qed

subsection \<open>The file name\<close>

text \<open>
  Claim C9, as the code has it. The file name of a capture is the sanitized prefix and an
  underscore, when a prefix is configured, then the sanitized title, an underscore, the
  sanitized id and \<open>.png\<close>, the id being \<open>1\<close> when it is omitted. With the title
  \<open>Login Test\<close>, no id and the prefix \<open>suite1\<close> the name is
  \<open>suite1_Login-Test_1.png\<close>: \<open>utils.fileNameSafe\<close> turns the space into a hyphen.
\<close>

theorem capture_file_name:
  "(fst (capture A C U st this title ident wait extra s) = Inr run
    \<longrightarrow> fileName run =
          (case getScreenshotPrefix st of
             None \<Rightarrow> []
           | Some p \<Rightarrow> if p = [] then [] else fileNameSafe U p @ ''_'')
          @ fileNameSafe U title @ ''_''
          @ fileNameSafe U (case ident of None \<Rightarrow> ''1'' | Some v \<Rightarrow> if v = [] then ''1'' else v)
          @ ''.png'')
   \<and>
   (fst (capture A C U st this ''Login Test'' None wait extra s) = Inr shot \<and>
      getScreenshotPrefix st = Some ''suite1'' \<and> fileNameSafe U = hyphenated
    \<longrightarrow> fileName shot = ''suite1_Login-Test_1.png'')"
proof (intro conjI impI)
  assume "fst (capture A C U st this title ident wait extra s) = Inr run"
  then show "fileName run =
          (case getScreenshotPrefix st of
             None \<Rightarrow> []
           | Some p \<Rightarrow> if p = [] then [] else fileNameSafe U p @ ''_'')
          @ fileNameSafe U title @ ''_''
          @ fileNameSafe U (case ident of None \<Rightarrow> ''1'' | Some v \<Rightarrow> if v = [] then ''1'' else v)
          @ ''.png''"
    by (cases ident)
       (auto simp: capture_def captureFileName_def Let_def
          split: sum.splits prod.splits option.splits)
next
  assume a: "fst (capture A C U st this ''Login Test'' None wait extra s) = Inr shot \<and>
      getScreenshotPrefix st = Some ''suite1'' \<and> fileNameSafe U = hyphenated"
  have "hyphenated ''Login Test'' = ''Login-Test''" "hyphenated ''suite1'' = ''suite1''"
    "hyphenated ''1'' = ''1''"
    by (simp_all add: hyphenated_def keepsAlnum_def)
  with a show "fileName shot = ''suite1_Login-Test_1.png''"
    by (auto simp: capture_def captureFileName_def Let_def
          split: sum.splits prod.splits option.splits)
qed

text \<open>
  The scenario of claim C9 on the sample page: the file is named
  \<open>suite1_Login-Test_1.png\<close>, not \<open>suite1_Login_Test_1.png\<close>.
\<close>

theorem capture_file_name_counterexample:
  "fst (capture (driver allThere) sampleCodec sampleExternals sampleStatics page ''Login Test''
          None None None \<lparr>clock = 0\<rparr>) =
     Inr \<lparr>fileName = ''suite1_Login-Test_1.png'', filePath = ''shots/suite1_Login-Test_1.png'',
          settled = \<lparr>promise = Resolved page, uncaught = None, written = Some whiteSquare\<rparr>\<rparr>
   \<and> ''suite1_Login-Test_1.png'' \<noteq> ''suite1_Login_Test_1.png''"
  by (simp add: capture_def blackOut_def getFrame_def getContext_def page_def
        driver_def sampleStatics_def getScreenshotPrefix_def getScreenshotPath_def orElse_def
        captureFileName_def sampleExternals_def hyphenated_def keepsAlnum_def capturePromise_def
        sampleCodec_def pixelCodec_def sampleLoad_def sampleWrite_def Let_def redactAndClip_def
        zeroRect_def)

theorem capture_file_name_witness:
  "fileName (projr (fst (capture (driver allThere) sampleCodec sampleExternals sampleStatics
      framedPage ''Login Test'' None None None \<lparr>clock = 0\<rparr>))) =
     ''suite1'' @ ''_'' @ ''Login-Test'' @ ''_'' @ ''1'' @ ''.png''
   \<and> fileName (projr (fst (capture (driver allThere) sampleCodec sampleExternals sampleStatics
        framedPage ''Login Test'' None None None \<lparr>clock = 0\<rparr>))) = ''suite1_Login-Test_1.png''"
proof -
  let ?r = "fst (capture (driver allThere) sampleCodec sampleExternals sampleStatics
      framedPage ''Login Test'' None None None \<lparr>clock = 0\<rparr>)"
  have run: "?r = Inr (projr ?r)"
    by (simp add: capture_def blackOut_def sampleStatics_def getScreenshotPath_def orElse_def
        Let_def split: prod.splits)
  have pre: "getScreenshotPrefix sampleStatics = Some ''suite1''"
    by (simp add: sampleStatics_def getScreenshotPrefix_def orElse_def)
  have safe: "fileNameSafe sampleExternals = hyphenated"
    by (simp add: sampleExternals_def)
  have hy: "hyphenated ''Login Test'' = ''Login-Test''" "hyphenated ''suite1'' = ''suite1''"
    "hyphenated ''1'' = ''1''"
    by (simp_all add: hyphenated_def keepsAlnum_def)
  note inst = capture_file_name[where A = "driver allThere" and C = sampleCodec
      and U = sampleExternals and st = sampleStatics and this = framedPage and wait = None
      and extra = None and s = "\<lparr>clock = 0\<rparr>" and title = "''Login Test''" and ident = None
      and run = "projr ?r" and shot = "projr ?r"]
  have 1: "fileName (projr ?r) = ''suite1'' @ ''_'' @ ''Login-Test'' @ ''_'' @ ''1'' @ ''.png''"
    using inst[THEN conjunct1] run pre safe hy by simp
  have 2: "fileName (projr ?r) = ''suite1_Login-Test_1.png''"
    using inst[THEN conjunct2] run pre safe by blast
  show ?thesis using 1 2 by blast
qed

subsection \<open>Errors of the image library\<close>

text \<open>
  Claim C4 asks the promise of \<open>capture\<close> to reject with the error of a failed decode
  or a failed write. The code at an input where the write fails: a screenshot directory
  is configured, the screenshot is decoded, and the library reports from a later turn of
  the event loop that it could not write the file. The callback throws the error when
  the \<open>try\<close> block has long been left: \<open>reject\<close> is not called, the promise stays
  pending and the error has no handler.
\<close>

theorem capture_write_error_leaves_promise_pending:
  "fst (capture (driver allThere) sampleCodec sampleExternals readOnlyStatics page ''Login Test''
          None None None \<lparr>clock = 0\<rparr>) =
     Inr \<lparr>fileName = ''suite1_Login-Test_1.png'',
          filePath = ''readonly/suite1_Login-Test_1.png'',
          settled = \<lparr>promise = Pending, uncaught = Some (Error ''EACCES''),
                     written = Some whiteSquare\<rparr>\<rparr>"
  by (simp add: capture_def blackOut_def getFrame_def getContext_def page_def
        driver_def readOnlyStatics_def getScreenshotPrefix_def getScreenshotPath_def orElse_def
        captureFileName_def sampleExternals_def hyphenated_def keepsAlnum_def capturePromise_def
        sampleCodec_def pixelCodec_def sampleLoad_def sampleWrite_def Let_def redactAndClip_def
        zeroRect_def)

end
